theory Spec2Isabelle
  imports Main "HOL-Library.Log_Nat"
begin

section \<open>Strings and fixed texts\<close>

text \<open>
  A JavaScript string is a sequence of UTF-16 code units; a code unit is modelled as a
  natural number. \<open>lit\<close> turns an Isabelle string (bytes, read as the code units below
  256) into such a sequence, so that the fixed texts of the program are written out
  character by character, accented letters by their code unit.
\<close>

type_synonym jsstring = "nat list"

definition lit :: "string \<Rightarrow> jsstring" where
  "lit cs = map of_char cs"

definition defaultPrompt :: jsstring where
  "defaultPrompt = lit
    (''Um fundo vibrante e abstrato com toques de dourado e azul-petr'' @ [CHR 0xF3] @
     ''leo, criando uma sensa'' @ [CHR 0xE7, CHR 0xE3] @
     ''o luxuosa e moderna para a exibi'' @ [CHR 0xE7, CHR 0xE3] @
     ''o de um produto.'')"

definition analyzeErrorMessage :: jsstring where
  "analyzeErrorMessage = lit
    (''N'' @ [CHR 0xE3] @
     ''o foi poss'' @ [CHR 0xED] @
     ''vel analisar a imagem. Por favor, tente descrever o fundo ma'' @
     ''nualmente.'')"

definition importFallbackMessage :: jsstring where
  "importFallbackMessage = lit
    (''Ocorreu um erro desconhecido ao importar da URL.'')"

definition composeErrorMessage :: jsstring where
  "composeErrorMessage = lit
    (''Falha ao compor a imagem profissional. Por favor, tente novamente.'')"

definition canvasContextError :: jsstring where
  "canvasContextError = lit
    (''N'' @ [CHR 0xE3] @
     ''o foi poss'' @ [CHR 0xED] @
     ''vel obter o contexto 2D do canvas.'')"

definition dataUrlConversionError :: jsstring where
  "dataUrlConversionError = lit
    (''N'' @ [CHR 0xE3] @
     ''o foi poss'' @ [CHR 0xED] @
     ''vel converter a imagem para Data URL.'')"

definition imageLoadError :: jsstring where
  "imageLoadError = lit
    (''N'' @ [CHR 0xE3] @
     ''o foi poss'' @ [CHR 0xED] @
     ''vel carregar a imagem da URL. Verifique se o link '' @ [CHR 0xE9] @
     '' v'' @ [CHR 0xE1] @
     ''lido e aponta diretamente para uma imagem.'')"

definition composeFormatError :: jsstring where
  "composeFormatError = lit
    (''Formato de string base64 inv'' @ [CHR 0xE1] @
     ''lido para a imagem do produto.'')"

definition noImageError :: jsstring where
  "noImageError = lit
    (''Nenhuma imagem foi gerada pela API.'')"

definition composeGatewayFailure :: jsstring where
  "composeGatewayFailure = lit
    (''Falha ao compor a imagem a partir da API Gemini.'')"

definition describeFormatError :: jsstring where
  "describeFormatError = lit
    (''Formato de string base64 inv'' @ [CHR 0xE1] @
     ''lido.'')"

definition describeGatewayFailure :: jsstring where
  "describeGatewayFailure = lit
    (''Falha ao gerar a descri'' @ [CHR 0xE7, CHR 0xE3] @
     ''o a partir da imagem.'')"

definition composeInstruction :: jsstring where
  "composeInstruction = lit
    (''Usando a imagem do produto fornecida, coloque-a profissional'' @
     ''mente na cena a seguir, garantindo uma composi'' @ [CHR 0xE7, CHR 0xE3] @
     ''o realista com sombras e ilumina'' @ [CHR 0xE7, CHR 0xE3] @
     ''o adequadas. A imagem final deve ser uma imagem de story com'' @
     ''pleta e de alta qualidade para m'' @ [CHR 0xED] @
     ''dias sociais (propor'' @ [CHR 0xE7, CHR 0xE3] @
     ''o 9:16). Descri'' @ [CHR 0xE7, CHR 0xE3] @
     ''o da cena: '')"

definition describeInstruction :: jsstring where
  "describeInstruction = lit
    (''Analise a imagem deste produto. Crie uma descri'' @ [CHR 0xE7, CHR 0xE3] @
     ''o detalhada e profissional para uma cena completa onde este '' @
     ''produto seria o destaque, para uma postagem de story em rede'' @
     ''s sociais (formato 9:16). A descri'' @ [CHR 0xE7, CHR 0xE3] @
     ''o deve ser criativa, atraente e focar em uma est'' @ [CHR 0xE9] @
     ''tica moderna e limpa. Descreva o ambiente, a ilumina'' @ [CHR 0xE7, CHR 0xE3] @
     ''o, os elementos de suporte, as cores e o clima. A resposta d'' @
     ''eve ser apenas a descri'' @ [CHR 0xE7, CHR 0xE3] @
     ''o gerada, em portugu'' @ [CHR 0xEA] @
     ''s.'')"

definition PROXY_URL :: jsstring where
  "PROXY_URL = lit
    (''https://corsproxy.io/?'')"

definition loadingMessages :: "jsstring list" where
  "loadingMessages =
     [lit (''Convocando diretores de arte...''),
      lit (''Ajustando a ilumina'' @ [CHR 0xE7, CHR 0xE3] @ ''o do est'' @ [CHR 0xFA] @
           ''dio virtual...''),
      lit (''Compondo a cena perfeita...''),
      lit (''Adicionando sombras e reflexos realistas...''),
      lit (''Finalizando os detalhes da sua obra-prima...'')]"

section \<open>The state of the \<open>App\<close> component\<close>

text \<open>
  One field for each \<open>useState\<close> cell of \<open>App\<close> (src/App.tsx, lines 61 to 69).
  \<open>string | null\<close> is an option; a setter call is a record update.
  The download link and the file input element are effects on the document, outside
  this state.
\<close>

record app_state =
  productImage :: "jsstring option"
  prompt :: jsstring
  isLoading :: bool
  error :: "jsstring option"
  finalImageURI :: "jsstring option"
  currentLoadingMessage :: jsstring
  productUrl :: jsstring
  isLoadingUrl :: bool
  isGeneratingPrompt :: bool

definition initial_state :: app_state where
  "initial_state =
     \<lparr> productImage = None, prompt = defaultPrompt, isLoading = False, error = None,
       finalImageURI = None, currentLoadingMessage = [], productUrl = [],
       isLoadingUrl = False, isGeneratingPrompt = False \<rparr>"

text \<open>
  JavaScript truthiness of a \<open>string | null\<close>: \<open>null\<close> and the empty string are falsy
  (the tests \<open>!productImage\<close>, \<open>!finalImageURI\<close>, \<open>productImage && ...\<close>).
\<close>

definition truthy :: "jsstring option \<Rightarrow> bool" where
  "truthy v = (case v of None \<Rightarrow> False | Some t \<Rightarrow> t \<noteq> [])"

section \<open>The handlers of \<open>App\<close>\<close>

text \<open>
  \<open>handleReset\<close> (lines 168 to 179). The clearing of the file input element is an
  effect on the document, outside the state.
\<close>

definition handleReset :: "app_state \<Rightarrow> app_state" where
  "handleReset s =
     s\<lparr> productImage := None, finalImageURI := None, error := None, isLoading := False,
        productUrl := [], isLoadingUrl := False, prompt := defaultPrompt \<rparr>"

text \<open>
  An asynchronous handler is split at its \<open>await\<close>. The first half is what runs up to
  the call: \<open>None\<close> when the handler returns at its guard, otherwise the arguments of
  the awaited call, read from the state the handler was created with, and the state with
  the setter calls made so far applied (they take effect together, in the render that
  follows when the handler suspends). The second half is what runs once the call has
  settled, \<open>Inl\<close> for a rejection and \<open>Inr\<close> for the resolved text; it is applied to
  the state of that later moment. The handler without a suffix runs both halves back to
  back, the awaited call given as a function.

  \<open>handleAnalyzeImage\<close> (lines 91 to 104).
\<close>

definition handleAnalyzeImage_begin :: "app_state \<Rightarrow> (app_state \<times> jsstring) option" where
  "handleAnalyzeImage_begin s =
     (case productImage s of
        None \<Rightarrow> None
      | Some img \<Rightarrow>
          if img = [] then None
          else Some (s\<lparr> isGeneratingPrompt := True, error := None \<rparr>, img))"

definition handleAnalyzeImage_end :: "jsstring + jsstring \<Rightarrow> app_state \<Rightarrow> app_state" where
  "handleAnalyzeImage_end r s =
     (case r of
        Inr generatedPrompt \<Rightarrow> s\<lparr> prompt := generatedPrompt, isGeneratingPrompt := False \<rparr>
      | Inl e \<Rightarrow>
          s\<lparr> error := Some analyzeErrorMessage, prompt := defaultPrompt,
             isGeneratingPrompt := False \<rparr>)"

definition handleAnalyzeImage ::
    "(jsstring \<Rightarrow> jsstring + jsstring) \<Rightarrow> app_state \<Rightarrow> app_state" where
  "handleAnalyzeImage gen s =
     (case handleAnalyzeImage_begin s of
        None \<Rightarrow> s
      | Some (s1, img) \<Rightarrow> handleAnalyzeImage_end (gen img) s1)"

text \<open>
  \<open>handleImageUpload\<close> (lines 113 to 123), for an event that carries a file: the
  handler resets and starts the reader (without a file it does nothing); later
  \<open>onloadend\<close> installs \<open>reader.result\<close>, which is \<open>null\<close> when the read failed.
\<close>

definition handleImageUpload :: "app_state \<Rightarrow> app_state" where
  "handleImageUpload s = handleReset s"

definition reader_onloadend :: "jsstring option \<Rightarrow> app_state \<Rightarrow> app_state" where
  "reader_onloadend r s = s\<lparr> productImage := r \<rparr>"

text \<open>
  \<open>handleUrlImport\<close> (lines 125 to 139). The URL handed to \<open>urlToDataUrl\<close> is the
  \<open>productUrl\<close> the handler was created with; \<open>e.message || ...\<close> takes the fallback
  when the message is empty.
\<close>

definition handleUrlImport_begin :: "app_state \<Rightarrow> (app_state \<times> jsstring) option" where
  "handleUrlImport_begin s =
     (if productUrl s = [] then None
      else Some ((handleReset s)\<lparr> isLoadingUrl := True, error := None \<rparr>, productUrl s))"

definition handleUrlImport_end :: "jsstring + jsstring \<Rightarrow> app_state \<Rightarrow> app_state" where
  "handleUrlImport_end r s =
     (case r of
        Inr dataUrl \<Rightarrow> s\<lparr> productImage := Some dataUrl, productUrl := [], isLoadingUrl := False \<rparr>
      | Inl msg \<Rightarrow>
          s\<lparr> error := Some (if msg = [] then importFallbackMessage else msg),
             isLoadingUrl := False \<rparr>)"

definition handleUrlImport ::
    "(jsstring \<Rightarrow> jsstring + jsstring) \<Rightarrow> app_state \<Rightarrow> app_state" where
  "handleUrlImport toDataUrl s =
     (case handleUrlImport_begin s of
        None \<Rightarrow> s
      | Some (s1, url) \<Rightarrow> handleUrlImport_end (toDataUrl url) s1)"

text \<open>\<open>handleGenerate\<close> (lines 142 to 156).\<close>

definition handleGenerate_begin :: "app_state \<Rightarrow> (app_state \<times> jsstring \<times> jsstring) option" where
  "handleGenerate_begin s =
     (if prompt s = [] \<or> \<not> truthy (productImage s) then None
      else
        (case productImage s of
           None \<Rightarrow> None
         | Some img \<Rightarrow>
             Some (s\<lparr> isLoading := True, error := None, finalImageURI := None \<rparr>,
                   img, prompt s)))"

definition handleGenerate_end :: "jsstring + jsstring \<Rightarrow> app_state \<Rightarrow> app_state" where
  "handleGenerate_end r s =
     (case r of
        Inr finalImage \<Rightarrow> s\<lparr> finalImageURI := Some finalImage, isLoading := False \<rparr>
      | Inl e \<Rightarrow> s\<lparr> error := Some composeErrorMessage, isLoading := False \<rparr>)"

definition handleGenerate ::
    "(jsstring \<Rightarrow> jsstring \<Rightarrow> jsstring + jsstring) \<Rightarrow> app_state \<Rightarrow> app_state" where
  "handleGenerate compose s =
     (case handleGenerate_begin s of
        None \<Rightarrow> s
      | Some (s1, img, p) \<Rightarrow> handleGenerate_end (compose img p) s1)"

section \<open>Numbers\<close>

text \<open>
  A JavaScript number is an IEEE 754 binary64 value, and \<open>/\<close> and \<open>*\<close> return the
  exact result rounded to the nearest such value, ties to the even significand. The
  numbers that \<open>urlToDataUrl\<close> computes are finite and far inside the exponent
  range, so a number is modelled as the rational it denotes and the rounding is written
  out: \<open>expo x\<close> is the binary exponent of a positive \<open>x\<close> (the \<open>e\<close> with
  \<open>2\<^sup>e \<le> x < 2\<^sup>e\<^sup>+\<^sup>1\<close>), \<open>rne\<close> rounds to the nearest integer, ties to even, and
  \<open>fl x\<close> is \<open>x\<close> rounded to 53 significant bits.
\<close>

definition rne :: "rat \<Rightarrow> int" where
  "rne x =
     (let f = \<lfloor>x\<rfloor>; d = x - of_int f
      in if d < 1 / 2 then f else if 1 / 2 < d then f + 1 else if even f then f else f + 1)"

definition expo :: "rat \<Rightarrow> int" where
  "expo x =
     (case quotient_of x of
        (p, q) \<Rightarrow> (let d = bitlen p - bitlen q in if 2 powi d \<le> x then d else d - 1))"

definition fl :: "rat \<Rightarrow> rat" where
  "fl x = (if x = 0 then 0
           else sgn x * of_int (rne (\<bar>x\<bar> * 2 powi (52 - expo \<bar>x\<bar>))) * 2 powi (expo \<bar>x\<bar> - 52))"

section \<open>The image normalizer\<close>

text \<open>
  \<open>urlToDataUrl\<close> (src/App.tsx, lines 15 to 57). The size of the canvas is computed in
  \<open>img.onload\<close> (lines 26 to 36) from \<open>naturalWidth\<close> and \<open>naturalHeight\<close>, two
  \<open>unsigned long\<close> attributes. \<open>Math.min\<close> of the two quotients is their minimum; a
  quotient by zero is \<open>Infinity\<close>, which the minimum then discards (inside the branch at
  most one of the two dimensions is zero). Assigning a number to \<open>canvas.width\<close>
  converts it to \<open>unsigned long\<close>: the fraction is dropped and the integer is taken
  modulo \<open>2\<^sup>3\<^sup>2\<close>.
\<close>

definition MAX_DIMENSION :: nat where
  "MAX_DIMENSION = 1024"

definition to_unsigned_long :: "rat \<Rightarrow> nat" where
  "to_unsigned_long x = nat ((if 0 \<le> x then \<lfloor>x\<rfloor> else \<lceil>x\<rceil>) mod 2 ^ 32)"

definition scale_ratio :: "nat \<Rightarrow> nat \<Rightarrow> rat" where
  "scale_ratio w h =
     (if w = 0 then fl (of_nat MAX_DIMENSION / of_nat h)
      else if h = 0 then fl (of_nat MAX_DIMENSION / of_nat w)
      else min (fl (of_nat MAX_DIMENSION / of_nat w)) (fl (of_nat MAX_DIMENSION / of_nat h)))"

definition canvas_dimensions :: "nat \<Rightarrow> nat \<Rightarrow> nat \<times> nat" where
  "canvas_dimensions w h =
     (if MAX_DIMENSION < w \<or> MAX_DIMENSION < h then
        (let ratio = scale_ratio w h
         in (to_unsigned_long (fl (of_nat w * ratio)), to_unsigned_long (fl (of_nat h * ratio))))
      else (to_unsigned_long (of_nat w), to_unsigned_long (of_nat h)))"

text \<open>
  What the browser does is a parameter: whether the image at an address loads, and with
  which natural size; whether the canvas gives a 2D context; and what \<open>toDataURL\<close>
  returns for that image on a canvas of the given size (\<open>None\<close> when it throws).
\<close>

datatype image_load = LoadError | Loaded nat nat

record browser =
  load_image :: "jsstring \<Rightarrow> image_load"
  context2d :: bool
  toDataURL :: "jsstring \<Rightarrow> nat \<Rightarrow> nat \<Rightarrow> jsstring option"

definition urlToDataUrl :: "browser \<Rightarrow> jsstring \<Rightarrow> jsstring + jsstring" where
  "urlToDataUrl b url =
     (let proxiedUrl = PROXY_URL @ url
      in (case load_image b proxiedUrl of
            LoadError \<Rightarrow> Inl imageLoadError
          | Loaded width height \<Rightarrow>
              (case canvas_dimensions width height of
                 (cw, ch) \<Rightarrow>
                   if \<not> context2d b then Inl canvasContextError
                   else (case toDataURL b proxiedUrl cw ch of
                           None \<Rightarrow> Inl dataUrlConversionError
                         | Some dataURL \<Rightarrow> Inr dataURL))))"

section \<open>The gateway to the generation service\<close>

text \<open>
  The two functions of the service module that \<open>App\<close> imports (src/unnamed/part_000;
  src/unnamed/part_001 is another version of the module, without \<open>composeStoryImage\<close>,
  and is not what \<open>App\<close> runs). Both start by matching their image argument against
  \<^verbatim>\<open>/^data:(image\/.+);base64,(.+)$/\<close>. Without flags, \<open>.\<close> matches any code unit
  but the four line terminators and \<open>$\<close> matches at the end of the input only.
\<close>

definition line_terminator :: "nat \<Rightarrow> bool" where
  "line_terminator c = (c = 10 \<or> c = 13 \<or> c = 8232 \<or> c = 8233)"

definition dot_plus :: "jsstring \<Rightarrow> bool" where
  "dot_plus t = (t \<noteq> [] \<and> (\<forall>c \<in> set t. \<not> line_terminator c))"

fun strip_prefix :: "jsstring \<Rightarrow> jsstring \<Rightarrow> jsstring option" where
  "strip_prefix [] t = Some t"
| "strip_prefix (p # ps) [] = None"
| "strip_prefix (p # ps) (c # cs) = (if p = c then strip_prefix ps cs else None)"

text \<open>
  After \<open>data:image/\<close>, the rest \<open>r\<close> is cut at a position \<open>i\<close>: the first \<open>.+\<close>
  takes \<open>take i r\<close>, the eight code units of \<open>;base64,\<close> follow, and the second
  \<open>.+\<close> takes everything up to the end. The first \<open>.+\<close> is greedy, so of all cuts that
  match the largest is found first by the backtracking; the two capture groups are
  returned.
\<close>

definition split_valid :: "jsstring \<Rightarrow> nat \<Rightarrow> bool" where
  "split_valid r i =
     (dot_plus (take i r) \<and> take 8 (drop i r) = lit '';base64,'' \<and> dot_plus (drop (i + 8) r))"

definition match_data_url :: "jsstring \<Rightarrow> (jsstring \<times> jsstring) option" where
  "match_data_url t =
     (case strip_prefix (lit ''data:image/'') t of
        None \<Rightarrow> None
      | Some r \<Rightarrow>
          (case filter (split_valid r) (rev [0..<length r]) of
             [] \<Rightarrow> None
           | i # _ \<Rightarrow> Some (lit ''image/'' @ take i r, drop (i + 8) r)))"

text \<open>
  The remote call \<open>ai.models.generateContent\<close> is a parameter: a function from the
  request to the rejection (\<open>Inl\<close>) or the response (\<open>Inr\<close>). A response part either
  carries \<open>inlineData\<close> (MIME type and data) or does not; an empty list of candidates
  stands for a response whose \<open>candidates[0]\<close> cannot be read.
\<close>

datatype part = InlineData jsstring jsstring | TextPart jsstring

record response =
  candidates :: "part list list"
  response_text :: jsstring

record request =
  model :: jsstring
  inline_mimeType :: jsstring
  inline_data :: jsstring
  text_part :: jsstring
  image_modality :: bool

type_synonym remote = "request \<Rightarrow> jsstring + response"

fun first_inline :: "part list \<Rightarrow> (jsstring \<times> jsstring) option" where
  "first_inline [] = None"
| "first_inline (InlineData m d # ps) = Some (m, d)"
| "first_inline (TextPart x # ps) = first_inline ps"

text \<open>
  Each function is a \<open>try\<close> block and a \<open>catch\<close> that replaces whatever was thrown by
  one fixed error. The \<open>try\<close> block is modelled with the errors it throws (\<open>TypeError\<close>
  stands for the exception of reading \<open>candidates[0].content.parts\<close> where there is no
  candidate); the result comes with the list of requests sent to the service.
\<close>

definition composeStoryImage_try ::
    "remote \<Rightarrow> jsstring \<Rightarrow> jsstring \<Rightarrow> (jsstring + jsstring) \<times> request list" where
  "composeStoryImage_try ai productImageBase64 p =
     (case match_data_url productImageBase64 of
        None \<Rightarrow> (Inl composeFormatError, [])
      | Some (mimeType, pureBase64) \<Rightarrow>
          (let req = \<lparr> model = lit ''gemini-2.5-flash-image'', inline_mimeType = mimeType,
                       inline_data = pureBase64, text_part = composeInstruction @ p,
                       image_modality = True \<rparr>
           in (case ai req of
                 Inl e \<Rightarrow> (Inl e, [req])
               | Inr resp \<Rightarrow>
                   (case candidates resp of
                      [] \<Rightarrow> (Inl (lit ''TypeError''), [req])
                    | parts # _ \<Rightarrow>
                        (case first_inline parts of
                           None \<Rightarrow> (Inl noImageError, [req])
                         | Some (m, d) \<Rightarrow>
                             (Inr (lit ''data:'' @ m @ lit '';base64,'' @ d), [req]))))))"

definition composeStoryImage ::
    "remote \<Rightarrow> jsstring \<Rightarrow> jsstring \<Rightarrow> (jsstring + jsstring) \<times> request list" where
  "composeStoryImage ai productImageBase64 p =
     (case composeStoryImage_try ai productImageBase64 p of
        (Inl e, sent) \<Rightarrow> (Inl composeGatewayFailure, sent)
      | (Inr img, sent) \<Rightarrow> (Inr img, sent))"

definition generatePromptFromImage_try ::
    "remote \<Rightarrow> jsstring \<Rightarrow> (jsstring + jsstring) \<times> request list" where
  "generatePromptFromImage_try ai imageBase64 =
     (case match_data_url imageBase64 of
        None \<Rightarrow> (Inl describeFormatError, [])
      | Some (mimeType, pureBase64) \<Rightarrow>
          (let req = \<lparr> model = lit ''gemini-2.5-flash'', inline_mimeType = mimeType,
                       inline_data = pureBase64, text_part = describeInstruction,
                       image_modality = False \<rparr>
           in (case ai req of
                 Inl e \<Rightarrow> (Inl e, [req])
               | Inr resp \<Rightarrow> (Inr (response_text resp), [req]))))"

definition generatePromptFromImage ::
    "remote \<Rightarrow> jsstring \<Rightarrow> (jsstring + jsstring) \<times> request list" where
  "generatePromptFromImage ai imageBase64 =
     (case generatePromptFromImage_try ai imageBase64 of
        (Inl e, sent) \<Rightarrow> (Inl describeGatewayFailure, sent)
      | (Inr txt, sent) \<Rightarrow> (Inr txt, sent))"

section \<open>The automatic description\<close>

text \<open>
  The effect of lines 106 to 110 depends on \<open>productImage\<close>, \<open>finalImageURI\<close> and
  \<open>handleAnalyzeImage\<close>; the last is a \<open>useCallback\<close> over \<open>productImage\<close> and
  changes exactly when \<open>productImage\<close> does. After a render the effect runs when one
  of these differs from its value at the previous render, and then calls
  \<open>handleAnalyzeImage\<close> if there is a product image and no final image.
  \<open>auto_analyze prev cur\<close> is what the effect launches after the render of \<open>cur\<close>
  that follows the render of \<open>prev\<close>.
\<close>

definition analyze_deps_changed :: "app_state \<Rightarrow> app_state \<Rightarrow> bool" where
  "analyze_deps_changed prev cur =
     (productImage prev \<noteq> productImage cur \<or> finalImageURI prev \<noteq> finalImageURI cur)"

definition auto_analyze :: "app_state \<Rightarrow> app_state \<Rightarrow> (app_state \<times> jsstring) option" where
  "auto_analyze prev cur =
     (if analyze_deps_changed prev cur then
        (if truthy (productImage cur) \<and> \<not> truthy (finalImageURI cur)
         then handleAnalyzeImage_begin cur else None)
      else None)"


definition generate_button_enabled :: "app_state \<Rightarrow> bool" where
  "generate_button_enabled s =
     (truthy (productImage s) \<and> prompt s \<noteq> [] \<and> \<not> isLoading s \<and> \<not> isLoadingUrl s \<and>
      \<not> isGeneratingPrompt s)"

section \<open>The component as a transition system\<close>

text \<open>
  Several calls can be pending at once, and what a handler does after its \<open>await\<close>
  meets whatever the others have written meanwhile. A configuration is the state, the
  calls that are pending, and the counter of the interval that rotates the loading
  message (\<open>None\<close> when no interval runs).
\<close>

datatype call = ReadFile | Normalize | Describe | Compose

record config =
  state :: app_state
  pending :: "call list"
  ticker :: "nat option"

definition initial_config :: config where
  "initial_config = \<lparr> state = initial_state, pending = [], ticker = None \<rparr>"

text \<open>
  An event is a user action (it runs a handler up to its \<open>await\<close>, or an \<open>onChange\<close>
  of lines 236 and 272), the settling of a pending call with its outcome (it runs the
  rest of the handler), or a tick of the interval (the counter advances modulo the
  number of messages, so the index is always that of a message). A call settles only if
  it is pending; an event that cannot happen leaves the configuration as it is. The disabling
  of buttons and fields is not modelled: every user action is admitted at every moment,
  so the configurations reached here include all that the component reaches.
\<close>

datatype event =
    ResetClick
  | FileChosen
  | FileLoaded "jsstring option"
  | UrlEdited jsstring
  | PromptEdited jsstring
  | UrlClick
  | UrlSettled "jsstring + jsstring"
  | AnalyzeClick
  | AnalyzeSettled "jsstring + jsstring"
  | GenerateClick
  | GenerateSettled "jsstring + jsstring"
  | Tick

definition settle :: "call \<Rightarrow> (app_state \<Rightarrow> app_state) \<Rightarrow> config \<Rightarrow> config" where
  "settle k f c =
     (if k \<in> set (pending c)
      then c\<lparr> state := f (state c), pending := remove1 k (pending c) \<rparr>
      else c)"

fun handle :: "event \<Rightarrow> config \<Rightarrow> config" where
  "handle ResetClick c = c\<lparr> state := handleReset (state c) \<rparr>"
| "handle FileChosen c =
     c\<lparr> state := handleImageUpload (state c), pending := pending c @ [ReadFile] \<rparr>"
| "handle (FileLoaded r) c = settle ReadFile (reader_onloadend r) c"
| "handle (UrlEdited u) c = c\<lparr> state := (state c)\<lparr> productUrl := u \<rparr> \<rparr>"
| "handle (PromptEdited p) c = c\<lparr> state := (state c)\<lparr> prompt := p \<rparr> \<rparr>"
| "handle UrlClick c =
     (case handleUrlImport_begin (state c) of
        None \<Rightarrow> c
      | Some (s1, url) \<Rightarrow> c\<lparr> state := s1, pending := pending c @ [Normalize] \<rparr>)"
| "handle (UrlSettled r) c = settle Normalize (handleUrlImport_end r) c"
| "handle AnalyzeClick c =
     (case handleAnalyzeImage_begin (state c) of
        None \<Rightarrow> c
      | Some (s1, img) \<Rightarrow> c\<lparr> state := s1, pending := pending c @ [Describe] \<rparr>)"
| "handle (AnalyzeSettled r) c = settle Describe (handleAnalyzeImage_end r) c"
| "handle GenerateClick c =
     (case handleGenerate_begin (state c) of
        None \<Rightarrow> c
      | Some (s1, img, p) \<Rightarrow> c\<lparr> state := s1, pending := pending c @ [Compose] \<rparr>)"
| "handle (GenerateSettled r) c = settle Compose (handleGenerate_end r) c"
| "handle Tick c =
     (case ticker c of
        None \<Rightarrow> c
      | Some i \<Rightarrow>
          (let j = (i + 1) mod length loadingMessages
           in c\<lparr> state := (state c)\<lparr> currentLoadingMessage := loadingMessages ! j \<rparr>,
                 ticker := Some j \<rparr>))"

text \<open>
  After the render that follows an event the two effects run, each if one of its
  dependencies differs from the render before. The effect of lines 73 to 88 depends on
  \<open>isLoading\<close>: its cleanup stops the interval, and if \<open>isLoading\<close> is now true it
  shows the first message and starts a new interval. The effect of lines 106 to 110 is
  \<open>auto_analyze\<close>; the description it starts becomes a pending call.
\<close>

definition loading_effect :: "app_state \<Rightarrow> config \<Rightarrow> config" where
  "loading_effect prev c =
     (if isLoading prev = isLoading (state c) then c
      else if isLoading (state c)
        then c\<lparr> state := (state c)\<lparr> currentLoadingMessage := loadingMessages ! 0 \<rparr>,
                ticker := Some 0 \<rparr>
        else c\<lparr> ticker := None \<rparr>)"

definition analyze_effect :: "app_state \<Rightarrow> config \<Rightarrow> config" where
  "analyze_effect prev c =
     (case auto_analyze prev (state c) of
        None \<Rightarrow> c
      | Some (s1, img) \<Rightarrow> c\<lparr> state := s1, pending := pending c @ [Describe] \<rparr>)"

definition step :: "event \<Rightarrow> config \<Rightarrow> config" where
  "step e c = analyze_effect (state c) (loading_effect (state c) (handle e c))"

fun run :: "event list \<Rightarrow> config \<Rightarrow> config" where
  "run [] c = c"
| "run (e # es) c = run es (step e c)"

definition exclusive :: "app_state \<Rightarrow> bool" where
  "exclusive s = (error s = None \<or> finalImageURI s = None)"



text \<open>Concrete values used in the examples below.\<close>

definition png_image :: jsstring where
  "png_image = lit ''data:image/png;base64,AAAA''"

definition story_image :: jsstring where
  "story_image = lit ''data:image/png;base64,BBBB''"

definition composed_state :: app_state where
  "composed_state =
     initial_state\<lparr> productImage := Some png_image, prompt := lit ''praia'',
                    finalImageURI := Some story_image,
                    currentLoadingMessage := loadingMessages ! 0 \<rparr>"

definition bad_url_state :: app_state where
  "bad_url_state = initial_state\<lparr> productUrl := lit ''http://bad'' \<rparr>"

definition unreachable :: browser where
  "unreachable =
     \<lparr> load_image = (\<lambda>u. LoadError), context2d = True, toDataURL = (\<lambda>u w h. None) \<rparr>"

section \<open>Reset\<close>

text \<open>
  C8. \<open>reset()\<close> clears the product image, the final image, the error, the composing
  and importing flags and the source URL, restores the prompt to the fixed default, and
  leaves the describing flag as it was.
\<close>

theorem reset_clears_all_but_describing:
  "productImage (handleReset s) = None \<and>
   finalImageURI (handleReset s) = None \<and>
   error (handleReset s) = None \<and>
   isLoading (handleReset s) = False \<and>
   isLoadingUrl (handleReset s) = False \<and>
   productUrl (handleReset s) = [] \<and>
   prompt (handleReset s) = defaultPrompt \<and>
   isGeneratingPrompt (handleReset s) = isGeneratingPrompt s"
  by (simp add: handleReset_def)

text \<open>
  C9. \<open>reset()\<close> is idempotent: applying it twice gives the state that applying it once
  gives.
\<close>

theorem reset_idempotent: "handleReset (handleReset s) = handleReset s"
  by (simp add: handleReset_def)

section \<open>Describing the product image\<close>

lemma handleAnalyzeImage_end_failure:
  "handleAnalyzeImage_end (Inl e) s =
     s\<lparr> error := Some analyzeErrorMessage, prompt := defaultPrompt, isGeneratingPrompt := False \<rparr>"
  by (simp add: handleAnalyzeImage_end_def)

lemma handleAnalyzeImage_end_flag: "isGeneratingPrompt (handleAnalyzeImage_end r s) = False"
  by (cases r) (simp_all add: handleAnalyzeImage_end_def)

lemma handleAnalyzeImage_present:
  "productImage s = Some img \<Longrightarrow> img \<noteq> [] \<Longrightarrow>
   handleAnalyzeImage gen s =
     handleAnalyzeImage_end (gen img) (s\<lparr> isGeneratingPrompt := True, error := None \<rparr>)"
  by (simp add: handleAnalyzeImage_def handleAnalyzeImage_begin_def)

text \<open>
  C5. In a state whose product image is present (a non-empty string, which is what the
  guard \<open>!productImage\<close> lets through), once \<open>handleAnalyzeImage\<close> has completed the
  describing flag is off, whatever the outcome of the describe call; and if that call
  failed, the prompt is the fixed default and the error is the fixed message that asks
  for a manual description.
\<close>

theorem describe_failure_falls_back:
  assumes "productImage s = Some img" and "img \<noteq> []"
  shows "isGeneratingPrompt (handleAnalyzeImage gen s) = False \<and>
         (\<forall>e. gen img = Inl e \<longrightarrow>
            prompt (handleAnalyzeImage gen s) = defaultPrompt \<and>
            error (handleAnalyzeImage gen s) = Some analyzeErrorMessage)"
  using assms
  by (simp add: handleAnalyzeImage_present handleAnalyzeImage_end_flag
      handleAnalyzeImage_end_failure)

theorem describe_failure_falls_back_witness:
  "isGeneratingPrompt
     (handleAnalyzeImage (\<lambda>i. Inl (lit ''quota''))
        (initial_state\<lparr> productImage := Some (lit ''data:image/png;base64,AAAA'') \<rparr>)) = False \<and>
   prompt
     (handleAnalyzeImage (\<lambda>i. Inl (lit ''quota''))
        (initial_state\<lparr> productImage := Some (lit ''data:image/png;base64,AAAA'') \<rparr>)) =
     defaultPrompt \<and>
   error
     (handleAnalyzeImage (\<lambda>i. Inl (lit ''quota''))
        (initial_state\<lparr> productImage := Some (lit ''data:image/png;base64,AAAA'') \<rparr>)) =
     Some analyzeErrorMessage"
  using describe_failure_falls_back
    [of "initial_state\<lparr> productImage := Some (lit ''data:image/png;base64,AAAA'') \<rparr>"
        "lit ''data:image/png;base64,AAAA''" "\<lambda>i. Inl (lit ''quota'')"]
  by (simp add: lit_def)

section \<open>Composing\<close>

text \<open>
  C6. When the prompt is the empty string or the product image is absent (\<open>null\<close>, or
  the empty string, which the guard treats alike), \<open>handleGenerate\<close> returns at its
  guard: no setter has run, no call to the gateway is launched, and the state after the
  handler is the state before it.
\<close>

theorem compose_guard_noop:
  assumes "prompt s = [] \<or> productImage s = None \<or> productImage s = Some []"
  shows "handleGenerate_begin s = None \<and> handleGenerate compose s = s"
  using assms
  by (auto simp add: handleGenerate_def handleGenerate_begin_def truthy_def)

theorem compose_guard_noop_witness:
  "productImage initial_state = None \<and>
   handleGenerate_begin initial_state = None \<and>
   handleGenerate (\<lambda>i p. Inr i) initial_state = initial_state"
  using compose_guard_noop [of initial_state "\<lambda>i p. Inr i"]
  by (simp add: initial_state_def)

section \<open>Importing from a URL\<close>

text \<open>
  C7. The URL that \<open>handleUrlImport\<close> works on is the \<open>productUrl\<close> of the state (the
  text field is bound to it). When it is the empty string the handler returns at its
  guard: the state is unchanged and no call to \<open>urlToDataUrl\<close> is launched. A reset
  leaves \<open>productUrl\<close> empty, so a reset followed by the import is the reset alone.
\<close>

theorem url_import_empty_noop:
  "(productUrl s = [] \<longrightarrow> handleUrlImport_begin s = None \<and> handleUrlImport toDataUrl s = s) \<and>
   handleUrlImport_begin (handleReset s) = None \<and>
   handleUrlImport toDataUrl (handleReset s) = handleReset s"
  by (simp add: handleUrlImport_def handleUrlImport_begin_def handleReset_def)

theorem url_import_empty_noop_witness:
  "productUrl initial_state = [] \<and>
   handleUrlImport_begin initial_state = None \<and>
   handleUrlImport (\<lambda>u. Inr u) initial_state = initial_state \<and>
   handleUrlImport (\<lambda>u. Inr u) (handleReset initial_state) = handleReset initial_state"
  using url_import_empty_noop [of initial_state "\<lambda>u. Inr u"]
  by (simp add: initial_state_def)

section \<open>The gateway and malformed images\<close>

lemma match_data_url_png:
  "match_data_url (lit ''data:image/png;base64,AAAA'') = Some (lit ''image/png'', lit ''AAAA'')"
  by (simp add: match_data_url_def split_valid_def dot_plus_def line_terminator_def lit_def
      upt_rec)

lemma match_data_url_greedy:
  "match_data_url (lit ''data:image/a;base64,b;base64,c'') =
     Some (lit ''image/a;base64,b'', lit ''c'')"
  by (simp add: match_data_url_def split_valid_def dot_plus_def line_terminator_def lit_def
      upt_rec)

lemma match_data_url_text: "match_data_url (lit ''data:text/plain;base64,AAAA'') = None"
  by (simp add: match_data_url_def lit_def)

lemma strip_prefix_Some: "strip_prefix p t = Some r \<longleftrightarrow> t = p @ r"
  by (induction p t rule: strip_prefix.induct) auto

lemma base64_marker_length: "length (lit '';base64,'') = 8"
  by (simp add: lit_def)

text \<open>
  The strings that the pattern matches are those of the form
  \<open>data:image/\<close> \<open>a\<close> \<open>;base64,\<close> \<open>b\<close> with \<open>a\<close> and \<open>b\<close> non-empty and free of line
  terminators.
\<close>

lemma match_data_url_iff:
  "match_data_url t \<noteq> None \<longleftrightarrow>
     (\<exists>a b. t = lit ''data:image/'' @ a @ lit '';base64,'' @ b \<and> dot_plus a \<and> dot_plus b)"
proof
  assume "match_data_url t \<noteq> None"
  then obtain r where r: "strip_prefix (lit ''data:image/'') t = Some r"
    and f: "filter (split_valid r) (rev [0..<length r]) \<noteq> []"
    by (auto simp add: match_data_url_def split: option.splits list.splits)
  from f obtain i where i: "split_valid r i"
    by (auto simp add: filter_empty_conv)
  have "r = take i r @ take 8 (drop i r) @ drop (i + 8) r"
    by (metis append_take_drop_id drop_drop add.commute)
  with i r show "\<exists>a b. t = lit ''data:image/'' @ a @ lit '';base64,'' @ b \<and> dot_plus a \<and> dot_plus b"
    unfolding split_valid_def strip_prefix_Some by metis
next
  assume "\<exists>a b. t = lit ''data:image/'' @ a @ lit '';base64,'' @ b \<and> dot_plus a \<and> dot_plus b"
  then obtain a b where t: "t = lit ''data:image/'' @ a @ lit '';base64,'' @ b"
    and a: "dot_plus a" and b: "dot_plus b" by blast
  define r where "r = a @ lit '';base64,'' @ b"
  have r: "strip_prefix (lit ''data:image/'') t = Some r"
    by (simp only: strip_prefix_Some t r_def)
  have v: "split_valid r (length a)"
    using a b by (simp add: split_valid_def r_def base64_marker_length)
  have "b \<noteq> []" using b by (simp add: dot_plus_def)
  then have "length a < length r" by (simp add: r_def)
  then have "length a \<in> set (rev [0..<length r])" by simp
  with v have "filter (split_valid r) (rev [0..<length r]) \<noteq> []"
    by (simp only: filter_empty_conv) blast
  then show "match_data_url t \<noteq> None"
    by (simp add: match_data_url_def r split: list.split)
qed

text \<open>
  C10. For an image argument that the pattern does not match, both gateway functions
  fail without sending any request to the service, and the error they fail with is the
  fixed wrapped message of the \<open>catch\<close> block, which differs from the format error
  thrown inside the \<open>try\<close> block.
\<close>

theorem gateway_rejects_malformed_image:
  assumes "match_data_url img = None"
  shows "composeStoryImage ai img p = (Inl composeGatewayFailure, []) \<and>
         generatePromptFromImage ai img = (Inl describeGatewayFailure, []) \<and>
         composeGatewayFailure \<noteq> composeFormatError \<and>
         describeGatewayFailure \<noteq> describeFormatError"
proof -
  have "composeStoryImage ai img p = (Inl composeGatewayFailure, [])"
    using assms by (simp add: composeStoryImage_def composeStoryImage_try_def)
  moreover have "generatePromptFromImage ai img = (Inl describeGatewayFailure, [])"
    using assms by (simp add: generatePromptFromImage_def generatePromptFromImage_try_def)
  moreover have "composeGatewayFailure \<noteq> composeFormatError"
    by (simp add: composeGatewayFailure_def composeFormatError_def lit_def)
  moreover have "describeGatewayFailure \<noteq> describeFormatError"
    by (simp add: describeGatewayFailure_def describeFormatError_def lit_def)
  ultimately show ?thesis by simp
qed

theorem gateway_rejects_malformed_image_witness:
  "match_data_url (lit ''data:text/plain;base64,AAAA'') = None \<and>
   composeStoryImage (\<lambda>r. Inr \<lparr> candidates = [[InlineData (lit ''image/png'') (lit ''BBBB'')]],
                                 response_text = [] \<rparr>)
     (lit ''data:text/plain;base64,AAAA'') (lit ''praia'') = (Inl composeGatewayFailure, []) \<and>
   generatePromptFromImage (\<lambda>r. Inr \<lparr> candidates = [], response_text = lit ''cena'' \<rparr>)
     (lit ''data:text/plain;base64,AAAA'') = (Inl describeGatewayFailure, [])"
  using gateway_rejects_malformed_image
    [of "lit ''data:text/plain;base64,AAAA''"
        "\<lambda>r. Inr \<lparr> candidates = [[InlineData (lit ''image/png'') (lit ''BBBB'')]],
                     response_text = [] \<rparr>" "lit ''praia''"]
    gateway_rejects_malformed_image
    [of "lit ''data:text/plain;base64,AAAA''"
        "\<lambda>r. Inr \<lparr> candidates = [], response_text = lit ''cena'' \<rparr>" "lit ''praia''"]
    match_data_url_text
  by simp

section \<open>Rounding\<close>

lemma rne_error: "\<bar>of_int (rne x) - x\<bar> \<le> 1 / 2"
proof -
  have "of_int \<lfloor>x\<rfloor> \<le> x" "x < of_int \<lfloor>x\<rfloor> + 1" by linarith+
  then show ?thesis unfolding rne_def Let_def by (auto simp: abs_le_iff)
qed

lemma rne_unique: "\<bar>x - of_int n\<bar> < 1 / 2 \<Longrightarrow> rne x = n"
  using rne_error[of x] by linarith

lemma bitlen_rat_bounds:
  fixes p :: int
  assumes "0 < p"
  shows "(2::rat) powi (bitlen p - 1) \<le> of_int p" and "of_int p < (2::rat) powi (bitlen p)"
proof -
  have b: "1 \<le> bitlen p"
    using assms bitlen_eq_zero_iff[of p] bitlen_nonneg[of p] by linarith
  from bitlen_bounds[OF assms]
  have lo: "2 ^ nat (bitlen p - 1) \<le> p" and hi: "p < 2 ^ nat (bitlen p)" by simp_all
  have "(2::rat) powi (bitlen p - 1) = of_int (2 ^ nat (bitlen p - 1))"
    using b by (simp add: power_int_def)
  also have "\<dots> \<le> of_int p" using lo by (simp only: of_int_le_iff)
  finally show "(2::rat) powi (bitlen p - 1) \<le> of_int p" .
  have "(of_int p :: rat) < of_int (2 ^ nat (bitlen p))" using hi by (simp only: of_int_less_iff)
  also have "\<dots> = (2::rat) powi (bitlen p)"
    using b by (simp add: power_int_def)
  finally show "of_int p < (2::rat) powi (bitlen p)" .
qed

lemma expo_bounds:
  assumes "0 < x"
  shows "2 powi (expo x) \<le> x \<and> x < 2 powi (expo x + 1)"
proof -
  obtain p q where pq: "quotient_of x = (p, q)" by force
  have q: "0 < q" using pq by (rule quotient_of_denom_pos)
  have x: "x = of_int p / of_int q" using pq by (rule quotient_of_div)
  have p: "0 < p" using assms q x by (simp add: zero_less_divide_iff)
  define d where "d = bitlen p - bitlen q"
  have qr: "(0::rat) < of_int q" using q by simp
  have A: "2 powi (d - 1) < x"
  proof -
    have "2 powi (d - 1) = (2::rat) powi (bitlen p - 1) / 2 powi (bitlen q)"
      unfolding d_def by (simp add: power_int_diff)
    also have "\<dots> < of_int p / of_int q"
      using bitlen_rat_bounds(1)[OF p] bitlen_rat_bounds(2)[OF q] qr
      by (intro frac_less2) auto
    finally show ?thesis using x by simp
  qed
  have B: "x < 2 powi (d + 1)"
  proof -
    have "of_int p / of_int q < (2::rat) powi (bitlen p) / 2 powi (bitlen q - 1)"
      using bitlen_rat_bounds(2)[OF p] bitlen_rat_bounds(1)[OF q] p
      by (intro frac_less) auto
    also have "\<dots> = 2 powi (d + 1)"
      unfolding d_def by (simp add: power_int_diff power_int_add)
    finally show ?thesis using x by simp
  qed
  have e: "expo x = (if 2 powi d \<le> x then d else d - 1)"
    by (simp add: expo_def pq d_def Let_def)
  show ?thesis
  proof (cases "2 powi d \<le> x")
    case True
    then show ?thesis using e B by simp
  next
    case False
    then show ?thesis using e A by simp
  qed
qed

lemma powi2_less_imp_less:
  assumes "(2::rat) powi a < 2 powi b"
  shows "a < b"
proof (rule ccontr)
  assume "\<not> a < b"
  then have "b \<le> a" by simp
  then have "(2::rat) powi b \<le> 2 powi a" by (intro power_int_increasing) auto
  with assms show False by simp
qed

lemma expo_unique:
  assumes "0 < x" and "2 powi e \<le> x" and "x < 2 powi (e + 1)"
  shows "expo x = e"
proof -
  from expo_bounds[OF assms(1)]
  have lo: "2 powi (expo x) \<le> x" and hi: "x < 2 powi (expo x + 1)" by simp_all
  have "(2::rat) powi e < 2 powi (expo x + 1)" using assms(2) hi by simp
  then have 1: "e < expo x + 1" by (rule powi2_less_imp_less)
  have "(2::rat) powi (expo x) < 2 powi (e + 1)" using lo assms(3) by simp
  then have 2: "expo x < e + 1" by (rule powi2_less_imp_less)
  from 1 2 show ?thesis by simp
qed

lemma fl_eval:
  assumes "0 < x" and "2 powi e \<le> x" and "x < 2 powi (e + 1)"
    and "\<bar>x * 2 powi (52 - e) - of_int n\<bar> < 1 / 2"
  shows "fl x = of_int n * 2 powi (e - 52)"
  using assms by (simp add: fl_def expo_unique rne_unique)

text \<open>
  The rounding at some known binary64 values: one tenth is the number with the bits
  \<open>3FB999999999999A\<close>; 1024 is representable; \<open>2\<^sup>5\<^sup>3 + 1\<close> and \<open>2\<^sup>5\<^sup>3 + 3\<close> lie halfway
  between two neighbours and go to the one with the even significand.
\<close>

lemma rne_tie: "rne (of_int k + 1 / 2) = (if even k then k else k + 1)"
proof -
  have "\<lfloor>(of_int k + 1 / 2 :: rat)\<rfloor> = k" by (rule floor_unique) simp_all
  then show ?thesis by (simp add: rne_def Let_def)
qed

lemma fl_tenth: "fl (1 / 10) = 3602879701896397 / 2 ^ 55"
  using fl_eval[of "1 / 10" "-4" 7205759403792794] by simp

lemma fl_representable: "fl 1024 = 1024"
  using fl_eval[of 1024 10 "2 ^ 52"] by simp

lemma fl_tie_to_even_down: "fl 9007199254740993 = 9007199254740992"
proof -
  have e: "expo 9007199254740993 = 53" by (rule expo_unique) simp_all
  have "(9007199254740993 / 2 :: rat) = of_int 4503599627370496 + 1 / 2" by simp
  then have "rne (9007199254740993 / 2) = 4503599627370496"
    by (simp only: rne_tie) simp
  then show ?thesis by (simp add: fl_def e)
qed

lemma fl_tie_to_even_up: "fl 9007199254740995 = 9007199254740996"
proof -
  have e: "expo 9007199254740995 = 53" by (rule expo_unique) simp_all
  have "(9007199254740995 / 2 :: rat) = of_int 4503599627370497 + 1 / 2" by simp
  then have "rne (9007199254740995 / 2) = 4503599627370498"
    by (simp only: rne_tie) simp
  then show ?thesis by (simp add: fl_def e)
qed

lemma fl_rel_error:
  assumes "0 < x"
  shows "\<bar>fl x - x\<bar> \<le> x / 2 ^ 53"
proof -
  define e where "e = expo x"
  define y where "y = x * 2 powi (52 - e)"
  have lo: "2 powi e \<le> x" using expo_bounds[OF assms] by (simp add: e_def)
  have flx: "fl x = of_int (rne y) * 2 powi (e - 52)"
    using assms by (simp add: fl_def e_def y_def)
  have xy: "x = y * 2 powi (e - 52)"
    by (simp add: y_def power_int_diff)
  have "fl x - x = (of_int (rne y) - y) * 2 powi (e - 52)"
    by (subst (2) xy, simp add: flx algebra_simps)
  then have "\<bar>fl x - x\<bar> = \<bar>of_int (rne y) - y\<bar> * 2 powi (e - 52)"
    by (simp add: abs_mult)
  also have "\<dots> \<le> (1 / 2) * 2 powi (e - 52)"
    using rne_error[of y] by (intro mult_right_mono) auto
  also have "\<dots> = 2 powi e / 2 ^ 53"
    by (simp add: power_int_diff)
  also have "\<dots> \<le> x / 2 ^ 53"
    using lo by (simp add: divide_right_mono)
  finally show ?thesis .
qed


lemma fl_zero: "fl 0 = 0"
  by (simp add: fl_def)

lemma fl_bounds:
  assumes "0 \<le> x"
  shows "x * (1 - 1 / 2 ^ 53) \<le> fl x" and "fl x \<le> x * (1 + 1 / 2 ^ 53)"
proof -
  have "x * (1 - 1 / 2 ^ 53) \<le> fl x \<and> fl x \<le> x * (1 + 1 / 2 ^ 53)"
  proof (cases "x = 0")
    case True
    then show ?thesis by (simp add: fl_zero)
  next
    case False
    with assms have "0 < x" by simp
    from fl_rel_error[OF this]
    have "fl x - x \<le> x / 2 ^ 53 \<and> x - fl x \<le> x / 2 ^ 53" by linarith
    then show ?thesis by (simp add: algebra_simps)
  qed
  then show "x * (1 - 1 / 2 ^ 53) \<le> fl x" and "fl x \<le> x * (1 + 1 / 2 ^ 53)" by simp_all
qed

lemma fl_nonneg:
  assumes "0 \<le> x"
  shows "0 \<le> fl x"
proof -
  have "0 \<le> x * (1 - 1 / 2 ^ 53)" using assms by (intro mult_nonneg_nonneg) simp_all
  with fl_bounds(1)[OF assms] show ?thesis by simp
qed

lemma scale_ratio_bounds:
  assumes "1024 < max w h"
  shows "1024 / of_nat (max w h) * (1 - 1 / 2 ^ 53) \<le> scale_ratio w h"
    and "scale_ratio w h \<le> 1024 / of_nat (max w h) * (1 + 1 / 2 ^ 53)"
proof -
  define U :: rat where "U = 1 / 2 ^ 53"
  define q :: rat where "q = 1024 / of_nat (max w h)"
  have one: "1024 / of_nat n * (1 - U) \<le> fl (1024 / of_nat n) \<and>
             fl (1024 / of_nat n) \<le> 1024 / of_nat n * (1 + U)" for n :: nat
    using fl_bounds[of "1024 / of_nat n"] by (simp add: U_def)
  have anti: "q * (1 - U) \<le> 1024 / of_nat n * (1 - U)" if "0 < n" "n \<le> max w h" for n :: nat
  proof -
    have "(of_nat n :: rat) \<le> of_nat (max w h)" using that(2) by (simp only: of_nat_le_iff)
    moreover have "(0::rat) < of_nat n" using that(1) by simp
    ultimately have "q \<le> 1024 / of_nat n"
      unfolding q_def by (intro divide_left_mono) (simp_all add: mult_pos_pos)
    then show ?thesis by (intro mult_right_mono) (simp_all add: U_def)
  qed
  have "q * (1 - U) \<le> scale_ratio w h \<and> scale_ratio w h \<le> q * (1 + U)"
  proof (cases "w = 0 \<or> h = 0")
    case True
    then have "scale_ratio w h = fl (1024 / of_nat (max w h))"
      by (auto simp add: scale_ratio_def MAX_DIMENSION_def)
    then show ?thesis using one[of "max w h"] by (simp add: q_def)
  next
    case False
    then have wh: "0 < w" "0 < h" by simp_all
    have s: "scale_ratio w h = min (fl (1024 / of_nat w)) (fl (1024 / of_nat h))"
      using wh by (simp add: scale_ratio_def MAX_DIMENSION_def)
    have lw: "q * (1 - U) \<le> fl (1024 / of_nat w)"
      using anti[of w] one[of w] wh by simp
    have lh: "q * (1 - U) \<le> fl (1024 / of_nat h)"
      using anti[of h] one[of h] wh by simp
    have up: "min (fl (1024 / of_nat w)) (fl (1024 / of_nat h)) \<le> q * (1 + U)"
    proof (cases "h \<le> w")
      case True
      then have qw: "q = 1024 / of_nat w" by (simp add: q_def max_def)
      have "min (fl (1024 / of_nat w)) (fl (1024 / of_nat h)) \<le> fl (1024 / of_nat w)" by simp
      also have "\<dots> \<le> q * (1 + U)" using one[of w] by (simp only: qw)
      finally show ?thesis .
    next
      case False
      then have qh: "q = 1024 / of_nat h" by (simp add: q_def max_def)
      have "min (fl (1024 / of_nat w)) (fl (1024 / of_nat h)) \<le> fl (1024 / of_nat h)" by simp
      also have "\<dots> \<le> q * (1 + U)" using one[of h] by (simp only: qh)
      finally show ?thesis .
    qed
    from lw lh up show ?thesis by (simp add: s)
  qed
  then show "1024 / of_nat (max w h) * (1 - 1 / 2 ^ 53) \<le> scale_ratio w h"
    and "scale_ratio w h \<le> 1024 / of_nat (max w h) * (1 + 1 / 2 ^ 53)"
    by (simp_all add: q_def U_def)
qed

lemma exact_scaled_le:
  fixes d m :: nat
  assumes "d \<le> m" and "0 < m"
  shows "(1024 * of_nat d / of_nat m :: rat) \<le> 1024"
proof -
  have mpos: "(0::rat) < of_nat m" using assms(2) by simp
  have "(of_nat d :: rat) \<le> of_nat m" using assms(1) by (simp only: of_nat_le_iff)
  then have "1024 * (of_nat d :: rat) \<le> 1024 * of_nat m" by simp
  then show ?thesis using mpos by (simp add: pos_divide_le_eq)
qed

lemma scaled_close:
  fixes d w h :: nat
  assumes "1024 < max w h" and "d \<le> max w h"
  shows "0 \<le> fl (of_nat d * scale_ratio w h)"
    and "\<bar>fl (of_nat d * scale_ratio w h) - 1024 * of_nat d / of_nat (max w h)\<bar> < 1 / 2 ^ 41"
proof -
  define U :: rat where "U = 1 / 2 ^ 53"
  define E :: rat where "E = 1024 * of_nat d / of_nat (max w h)"
  define r where "r = scale_ratio w h"
  define x where "x = of_nat d * r"
  have U: "0 \<le> 1 - U" "0 \<le> 1 + U" by (simp_all add: U_def)
  have mpos: "(0::rat) < of_nat (max w h)" using assms(1) by simp
  have E0: "0 \<le> E" by (simp add: E_def)
  have E1: "E \<le> 1024"
    unfolding E_def using assms by (intro exact_scaled_le) simp_all
  have Eq: "E = of_nat d * (1024 / of_nat (max w h))" by (simp add: E_def)
  have r: "1024 / of_nat (max w h) * (1 - U) \<le> r" "r \<le> 1024 / of_nat (max w h) * (1 + U)"
    using scale_ratio_bounds[OF assms(1)] by (simp_all add: r_def U_def)
  have xlo: "E * (1 - U) \<le> x"
  proof -
    have "of_nat d * (1024 / of_nat (max w h) * (1 - U)) \<le> of_nat d * r"
      using r(1) by (intro mult_left_mono) simp_all
    then show ?thesis by (simp add: Eq x_def mult.assoc)
  qed
  have xhi: "x \<le> E * (1 + U)"
  proof -
    have "of_nat d * r \<le> of_nat d * (1024 / of_nat (max w h) * (1 + U))"
      using r(2) by (intro mult_left_mono) simp_all
    then show ?thesis by (simp add: Eq x_def mult.assoc)
  qed
  have x0: "0 \<le> x" using xlo E0 U(1) mult_nonneg_nonneg[of E "1 - U"] by linarith
  have f: "x * (1 - U) \<le> fl x" "fl x \<le> x * (1 + U)"
    using fl_bounds[OF x0] by (simp_all add: U_def)
  have "E * (1 - U) * (1 - U) \<le> x * (1 - U)" using xlo U(1) by (intro mult_right_mono)
  with f(1) have lo: "E * ((1 - U) * (1 - U)) \<le> fl x" by (simp add: mult.assoc)
  have "x * (1 + U) \<le> E * (1 + U) * (1 + U)" using xhi U(2) by (intro mult_right_mono)
  with f(2) have hi: "fl x \<le> E * ((1 + U) * (1 + U))" by (simp add: mult.assoc)
  have c1: "E * (1 - (1 - U) * (1 - U)) \<le> 1024 * (1 - (1 - U) * (1 - U))"
    using E1 by (intro mult_right_mono) (simp_all add: U_def)
  have c2: "E * ((1 + U) * (1 + U) - 1) \<le> 1024 * ((1 + U) * (1 + U) - 1)"
    using E1 by (intro mult_right_mono) (simp_all add: U_def)
  have n1: "1024 * (1 - (1 - U) * (1 - U)) < 1 / 2 ^ 41" by (simp add: U_def)
  have n2: "1024 * ((1 + U) * (1 + U) - 1) < 1 / 2 ^ 41" by (simp add: U_def)
  have "E - fl x \<le> E * (1 - (1 - U) * (1 - U))" using lo by (simp add: algebra_simps)
  with c1 n1 have A: "E - fl x < 1 / 2 ^ 41" by linarith
  have "fl x - E \<le> E * ((1 + U) * (1 + U) - 1)" using hi by (simp add: algebra_simps)
  with c2 n2 have B: "fl x - E < 1 / 2 ^ 41" by linarith
  from A B have "\<bar>fl x - E\<bar> < 1 / 2 ^ 41" by linarith
  then show "\<bar>fl (of_nat d * scale_ratio w h) - 1024 * of_nat d / of_nat (max w h)\<bar> < 1 / 2 ^ 41"
    by (simp add: x_def r_def E_def)
  show "0 \<le> fl (of_nat d * scale_ratio w h)"
    using fl_nonneg[OF x0] by (simp add: x_def r_def)
qed

lemma floor_scaled:
  fixes d m :: nat and F :: rat
  assumes "0 < m" and "m < 2 ^ 32" and "\<bar>F - 1024 * of_nat d / of_nat m\<bar> < 1 / 2 ^ 41"
  shows "\<lceil>(1024 * of_nat d / of_nat m :: rat)\<rceil> - 1 \<le> \<lfloor>F\<rfloor>"
    and "\<lfloor>F\<rfloor> \<le> \<lfloor>(1024 * of_nat d / of_nat m :: rat)\<rfloor>"
proof -
  define E :: rat where "E = 1024 * of_nat d / of_nat m"
  have mpos: "(0::rat) < of_nat m" using assms(1) by simp
  have gap: "(1::rat) / 2 ^ 41 < 1 / of_nat m"
  proof -
    have "(of_nat m :: rat) < of_nat (2 ^ 32)" using assms(2) by (simp only: of_nat_less_iff)
    then have "(of_nat m :: rat) < 2 ^ 41" by simp
    then show ?thesis using mpos by (simp add: field_simps)
  qed
  have step: "E + 1 / of_nat m \<le> of_int k" if "E < of_int k" for k :: int
  proof -
    from that have "1024 * of_nat d < (of_int k :: rat) * of_nat m"
      using mpos by (simp add: E_def field_simps)
    then have "(of_int (1024 * int d) :: rat) < of_int (k * int m)" by simp
    then have "1024 * int d < k * int m" by (simp only: of_int_less_iff)
    then have "1024 * int d + 1 \<le> k * int m" by simp
    then have "(of_int (1024 * int d + 1) :: rat) \<le> of_int (k * int m)"
      by (simp only: of_int_le_iff)
    then have "1024 * of_nat d + 1 \<le> (of_int k :: rat) * of_nat m" by simp
    then have "(1024 * of_nat d + 1) / of_nat m \<le> (of_int k :: rat) * of_nat m / of_nat m"
      using mpos by (intro divide_right_mono) simp_all
    moreover have "(1024 * of_nat d + 1) / of_nat m = E + 1 / of_nat m"
      by (simp add: E_def add_divide_distrib)
    ultimately show ?thesis using mpos by simp
  qed
  have step': "of_int k + 1 / of_nat m \<le> E" if "of_int k < E" for k :: int
  proof -
    from that have "(of_int k :: rat) * of_nat m < 1024 * of_nat d"
      using mpos by (simp add: E_def field_simps)
    then have "(of_int (k * int m) :: rat) < of_int (1024 * int d)" by simp
    then have "k * int m < 1024 * int d" by (simp only: of_int_less_iff)
    then have "k * int m + 1 \<le> 1024 * int d" by simp
    then have "(of_int (k * int m + 1) :: rat) \<le> of_int (1024 * int d)"
      by (simp only: of_int_le_iff)
    then have "(of_int k :: rat) * of_nat m + 1 \<le> 1024 * of_nat d" by simp
    then have "((of_int k :: rat) * of_nat m + 1) / of_nat m \<le> 1024 * of_nat d / of_nat m"
      using mpos by (intro divide_right_mono) simp_all
    moreover have "((of_int k :: rat) * of_nat m + 1) / of_nat m = of_int k + 1 / of_nat m"
      using mpos by (simp add: add_divide_distrib)
    ultimately show ?thesis by (simp add: E_def)
  qed
  have "\<bar>F - E\<bar> < 1 / 2 ^ 41" using assms(3) by (simp only: E_def)
  then have F: "F < E + 1 / 2 ^ 41" "E - 1 / 2 ^ 41 < F" by linarith+
  have up: "\<lfloor>F\<rfloor> \<le> \<lfloor>E\<rfloor>"
  proof (rule ccontr)
    assume "\<not> \<lfloor>F\<rfloor> \<le> \<lfloor>E\<rfloor>"
    then have "\<lfloor>E\<rfloor> < \<lfloor>F\<rfloor>" by simp
    then have "E < of_int \<lfloor>F\<rfloor>" by (simp only: floor_less_iff)
    from step[OF this] have "E + 1 / of_nat m \<le> F" by linarith
    with F(1) gap show False by linarith
  qed
  have lo: "\<lceil>E\<rceil> - 1 \<le> \<lfloor>F\<rfloor>"
  proof -
    have "of_int (\<lceil>E\<rceil> - 1) < E" by simp linarith
    from step'[OF this] have "of_int (\<lceil>E\<rceil> - 1) + 1 / of_nat m \<le> E" .
    with F(2) gap have "of_int (\<lceil>E\<rceil> - 1) \<le> F" by linarith
    then show ?thesis by (simp only: le_floor_iff)
  qed
  from lo up show "\<lceil>(1024 * of_nat d / of_nat m :: rat)\<rceil> - 1 \<le> \<lfloor>F\<rfloor>"
    and "\<lfloor>F\<rfloor> \<le> \<lfloor>(1024 * of_nat d / of_nat m :: rat)\<rfloor>"
    by (simp_all add: E_def)
qed


lemma to_unsigned_long_floor:
  assumes "0 \<le> x" and "\<lfloor>x\<rfloor> < 2 ^ 32"
  shows "int (to_unsigned_long x) = \<lfloor>x\<rfloor>"
proof -
  have "0 \<le> \<lfloor>x\<rfloor>" using assms(1) by simp
  then show ?thesis using assms by (simp add: to_unsigned_long_def)
qed

lemma to_unsigned_long_of_nat:
  assumes "n < 2 ^ 32"
  shows "to_unsigned_long (of_nat n) = n"
proof -
  have "int n < int (2 ^ 32)" using assms by (simp only: of_nat_less_iff)
  then have "int n < 2 ^ 32" by simp
  then show ?thesis by (simp add: to_unsigned_long_def)
qed

lemma scaled_dimension:
  fixes d w h :: nat
  assumes "1024 < max w h" and "max w h < 2 ^ 32" and "d \<le> max w h"
  shows "\<lceil>(1024 * of_nat d / of_nat (max w h) :: rat)\<rceil> - 1
           \<le> int (to_unsigned_long (fl (of_nat d * scale_ratio w h)))"
    and "int (to_unsigned_long (fl (of_nat d * scale_ratio w h)))
           \<le> \<lfloor>(1024 * of_nat d / of_nat (max w h) :: rat)\<rfloor>"
proof -
  define F where "F = fl (of_nat d * scale_ratio w h)"
  define E :: rat where "E = 1024 * of_nat d / of_nat (max w h)"
  have m: "0 < max w h" using assms(1) by simp
  have F0: "0 \<le> F" and close: "\<bar>F - E\<bar> < 1 / 2 ^ 41"
    using scaled_close[OF assms(1) assms(3)] by (simp_all add: F_def E_def)
  have lo: "\<lceil>E\<rceil> - 1 \<le> \<lfloor>F\<rfloor>" and hi: "\<lfloor>F\<rfloor> \<le> \<lfloor>E\<rfloor>"
    using floor_scaled[OF m assms(2), of F d] close by (simp_all add: E_def)
  have "E \<le> 1024"
    unfolding E_def using assms(3) m by (intro exact_scaled_le)
  then have "\<lfloor>E\<rfloor> \<le> 1024" by (simp add: floor_le_iff)
  moreover have "(1024::int) < 2 ^ 32" by simp
  ultimately have "\<lfloor>F\<rfloor> < 2 ^ 32" using hi by linarith
  from to_unsigned_long_floor[OF F0 this] have "int (to_unsigned_long F) = \<lfloor>F\<rfloor>" .
  with lo hi show "\<lceil>(1024 * of_nat d / of_nat (max w h) :: rat)\<rceil> - 1
           \<le> int (to_unsigned_long (fl (of_nat d * scale_ratio w h)))"
    and "int (to_unsigned_long (fl (of_nat d * scale_ratio w h)))
           \<le> \<lfloor>(1024 * of_nat d / of_nat (max w h) :: rat)\<rfloor>"
    by (simp_all add: F_def E_def)
qed

lemma scaled_dimension_le:
  fixes d w h :: nat
  assumes "1024 < max w h" and "max w h < 2 ^ 32" and "d \<le> max w h"
  shows "to_unsigned_long (fl (of_nat d * scale_ratio w h)) \<le> 1024"
proof -
  have "0 < max w h" using assms(1) by linarith
  with assms(3) have "(1024 * of_nat d / of_nat (max w h) :: rat) \<le> 1024"
    by (intro exact_scaled_le)
  then have "\<lfloor>(1024 * of_nat d / of_nat (max w h) :: rat)\<rfloor> \<le> 1024" by (simp add: floor_le_iff)
  with scaled_dimension(2)[OF assms] show ?thesis by linarith
qed

lemma scaled_dimension_max:
  fixes w h :: nat
  assumes "1024 < max w h" and "max w h < 2 ^ 32"
  shows "to_unsigned_long (fl (of_nat (max w h) * scale_ratio w h)) \<in> {1023, 1024}"
proof -
  have c: "(1024 * of_nat m / of_nat m :: rat) = 1024" if "0 < m" for m :: nat
    using that by simp
  have "0 < max w h" using assms(1) by linarith
  then have E: "(1024 * of_nat (max w h) / of_nat (max w h) :: rat) = 1024"
    by (rule c)
  define out where "out = to_unsigned_long (fl (of_nat (max w h) * scale_ratio w h))"
  have le: "max w h \<le> max w h" by (rule order_refl)
  have "\<lceil>1024::rat\<rceil> - 1 \<le> int out"
    using scaled_dimension(1)[OF assms le] unfolding E out_def .
  moreover have "int out \<le> \<lfloor>1024::rat\<rfloor>"
    using scaled_dimension(2)[OF assms le] unfolding E out_def .
  ultimately have "1023 \<le> int out" and "int out \<le> 1024" by simp_all
  then have "out = 1023 \<or> out = 1024" by linarith
  then show ?thesis by (simp add: out_def)
qed

section \<open>The size of the canvas\<close>

lemma fl_32_49: "fl (32 / 49) = 5882252574524729 / 2 ^ 53"
  using fl_eval[of "32 / 49" "-1" 5882252574524729] by simp

lemma fl_64_49: "fl (64 / 49) = 5882252574524729 / 2 ^ 52"
  using fl_eval[of "64 / 49" "0" 5882252574524729] by simp

lemma fl_w: "fl (288230376151711721 / 281474976710656) = 9007199254740991 / 2 ^ 43"
  using fl_eval[of "288230376151711721 / 281474976710656" 9 9007199254740991] by simp

lemma fl_h: "fl (288230376151711721 / 562949953421312) = 9007199254740991 / 2 ^ 44"
  using fl_eval[of "288230376151711721 / 562949953421312" 8 9007199254740991] by simp

text \<open>
  C4 as stated fails for an image of 1568 by 784: the quotient \<open>1024 / 1568\<close> rounds down, the product
  \<open>1568 * ratio\<close> is the binary64 value just below 1024, and the canvas is 1023 wide.
\<close>

theorem scaled_width_1023_counterexample:
  "canvas_dimensions 1568 784 = (1023, 511) \<and>
   max (fst (canvas_dimensions 1568 784)) (snd (canvas_dimensions 1568 784)) \<noteq> 1024"
proof -
  have fw: "\<lfloor>(9007199254740991::rat) / 8796093022208\<rfloor> = 1023"
    by (rule floor_unique) simp_all
  have fh: "\<lfloor>(9007199254740991::rat) / 17592186044416\<rfloor> = 511"
    by (rule floor_unique) simp_all
  have "canvas_dimensions 1568 784 = (1023, 511)"
    by (simp add: canvas_dimensions_def scale_ratio_def MAX_DIMENSION_def fl_32_49 fl_64_49
        fl_w fl_h to_unsigned_long_def Let_def fw fh)
  then show ?thesis by simp
qed


text \<open>
  C4, amended. For natural dimensions \<open>w\<close> and \<open>h\<close> (two \<open>unsigned long\<close> values):
  if both are at most 1024 the canvas has the dimensions of the image. If one exceeds
  1024, each canvas dimension is the exactly scaled dimension \<open>1024 * d / max w h\<close>
  rounded down, or one less than it when the exactly scaled dimension is a whole number;
  the larger canvas dimension is therefore 1023 or 1024.
\<close>

theorem canvas_dimensions_scaled:
  assumes "w < 2 ^ 32" and "h < 2 ^ 32"
  shows "(w \<le> 1024 \<and> h \<le> 1024 \<longrightarrow> canvas_dimensions w h = (w, h)) \<and>
         (1024 < w \<or> 1024 < h \<longrightarrow>
            \<lceil>(1024 * of_nat w / of_nat (max w h) :: rat)\<rceil> - 1 \<le> int (fst (canvas_dimensions w h)) \<and>
            int (fst (canvas_dimensions w h)) \<le> \<lfloor>(1024 * of_nat w / of_nat (max w h) :: rat)\<rfloor> \<and>
            \<lceil>(1024 * of_nat h / of_nat (max w h) :: rat)\<rceil> - 1 \<le> int (snd (canvas_dimensions w h)) \<and>
            int (snd (canvas_dimensions w h)) \<le> \<lfloor>(1024 * of_nat h / of_nat (max w h) :: rat)\<rfloor> \<and>
            max (fst (canvas_dimensions w h)) (snd (canvas_dimensions w h)) \<in> {1023, 1024})"
proof (intro conjI impI)
  assume "w \<le> 1024 \<and> h \<le> 1024"
  then show "canvas_dimensions w h = (w, h)"
    using assms by (simp add: canvas_dimensions_def MAX_DIMENSION_def to_unsigned_long_of_nat)
next
  assume big: "1024 < w \<or> 1024 < h"
  then have m: "1024 < max w h" by auto
  have m32: "max w h < 2 ^ 32" using assms by simp
  have cd: "canvas_dimensions w h =
              (to_unsigned_long (fl (of_nat w * scale_ratio w h)),
               to_unsigned_long (fl (of_nat h * scale_ratio w h)))"
    using big by (simp add: canvas_dimensions_def MAX_DIMENSION_def Let_def)
  show "\<lceil>(1024 * of_nat w / of_nat (max w h) :: rat)\<rceil> - 1 \<le> int (fst (canvas_dimensions w h))"
    using scaled_dimension(1)[OF m m32, of w] by (simp add: cd)
  show "int (fst (canvas_dimensions w h)) \<le> \<lfloor>(1024 * of_nat w / of_nat (max w h) :: rat)\<rfloor>"
    using scaled_dimension(2)[OF m m32, of w] by (simp add: cd)
  show "\<lceil>(1024 * of_nat h / of_nat (max w h) :: rat)\<rceil> - 1 \<le> int (snd (canvas_dimensions w h))"
    using scaled_dimension(1)[OF m m32, of h] by (simp add: cd)
  show "int (snd (canvas_dimensions w h)) \<le> \<lfloor>(1024 * of_nat h / of_nat (max w h) :: rat)\<rfloor>"
    using scaled_dimension(2)[OF m m32, of h] by (simp add: cd)
  have lw: "to_unsigned_long (fl (of_nat w * scale_ratio w h)) \<le> 1024"
    using scaled_dimension_le[OF m m32, of w] by simp
  have lh: "to_unsigned_long (fl (of_nat h * scale_ratio w h)) \<le> 1024"
    using scaled_dimension_le[OF m m32, of h] by simp
  show "max (fst (canvas_dimensions w h)) (snd (canvas_dimensions w h)) \<in> {1023, 1024}"
  proof (cases "h \<le> w")
    case True
    then have "max w h = w" by simp
    with scaled_dimension_max[OF m m32]
    have "to_unsigned_long (fl (of_nat w * scale_ratio w h)) \<in> {1023, 1024}" by simp
    with lh show ?thesis by (auto simp add: cd max_def)
  next
    case False
    then have "max w h = h" by simp
    with scaled_dimension_max[OF m m32]
    have "to_unsigned_long (fl (of_nat h * scale_ratio w h)) \<in> {1023, 1024}" by simp
    with lw show ?thesis by (auto simp add: cd max_def)
  qed
qed


theorem canvas_dimensions_scaled_witness:
  "canvas_dimensions 800 600 = (800, 600) \<and>
   1023 \<le> fst (canvas_dimensions 1920 1080) \<and> fst (canvas_dimensions 1920 1080) \<le> 1024 \<and>
   575 \<le> snd (canvas_dimensions 1920 1080) \<and> snd (canvas_dimensions 1920 1080) \<le> 576"
  using canvas_dimensions_scaled [of 800 600] canvas_dimensions_scaled [of 1920 1080]
  by simp

section \<open>What a URL import does to the URL field\<close>

lemma urlToDataUrl_unreachable: "urlToDataUrl unreachable url = Inl imageLoadError"
  by (simp add: urlToDataUrl_def unreachable_def Let_def)

lemma imageLoadError_nonempty: "imageLoadError \<noteq> []"
  by (simp add: imageLoadError_def lit_def)

text \<open>
  C2 as stated fails when the URL field holds \<open>http://bad\<close> and the image cannot be
  loaded. The URL is handed to \<open>urlToDataUrl\<close>, but the state in which the call is
  pending has an empty \<open>productUrl\<close> already, and after the failure the field is
  empty, not the submitted text.
\<close>

theorem url_import_failure_counterexample:
  "productUrl bad_url_state = lit ''http://bad'' \<and>
   map_option snd (handleUrlImport_begin bad_url_state) = Some (lit ''http://bad'') \<and>
   map_option (productUrl \<circ> fst) (handleUrlImport_begin bad_url_state) = Some [] \<and>
   error (handleUrlImport (urlToDataUrl unreachable) bad_url_state) = Some imageLoadError \<and>
   productUrl (handleUrlImport (urlToDataUrl unreachable) bad_url_state) = [] \<and>
   productUrl (handleUrlImport (urlToDataUrl unreachable) bad_url_state) \<noteq>
     productUrl bad_url_state"
  by (simp add: bad_url_state_def handleUrlImport_def handleUrlImport_begin_def
      handleUrlImport_end_def handleReset_def urlToDataUrl_unreachable imageLoadError_nonempty
      lit_def)

text \<open>
  C2, amended. With a non-empty URL in the field, \<open>handleUrlImport\<close> applies the whole
  reset, the URL field included, and hands the submitted URL to \<open>urlToDataUrl\<close>: while
  the call is pending the state is the reset state with the importing flag on, so its
  URL field is empty. When the call settles, in whatever state that is, a success
  writes the empty string to the URL field once more and a failure does not write the
  field: neither restores the submitted text. When nothing comes between the two
  halves the field is empty at the end.
\<close>

theorem url_import_resets_all:
  assumes "productUrl s = url" and "url \<noteq> []"
  shows "handleUrlImport_begin s = Some ((handleReset s)\<lparr> isLoadingUrl := True \<rparr>, url) \<and>
         productUrl ((handleReset s)\<lparr> isLoadingUrl := True \<rparr>) = [] \<and>
         (\<forall>later d. productUrl (handleUrlImport_end (Inr d) later) = []) \<and>
         (\<forall>later m. productUrl (handleUrlImport_end (Inl m) later) = productUrl later) \<and>
         productUrl (handleUrlImport toDataUrl s) = []"
proof -
  have b: "handleUrlImport_begin s = Some ((handleReset s)\<lparr> isLoadingUrl := True \<rparr>, url)"
    using assms by (simp add: handleUrlImport_begin_def handleReset_def)
  have r: "handleUrlImport toDataUrl s =
             handleUrlImport_end (toDataUrl url) ((handleReset s)\<lparr> isLoadingUrl := True \<rparr>)"
    by (simp add: handleUrlImport_def b)
  have u: "productUrl (handleUrlImport toDataUrl s) = []"
    by (cases "toDataUrl url") (simp_all add: r handleUrlImport_end_def handleReset_def)
  have ok: "productUrl (handleUrlImport_end (Inr d) later) = []" for d later
    by (simp add: handleUrlImport_end_def)
  have ko: "productUrl (handleUrlImport_end (Inl m) later) = productUrl later" for m later
    by (simp add: handleUrlImport_end_def)
  show ?thesis using b u ok ko by (simp add: handleReset_def)
qed

theorem url_import_resets_all_witness:
  "handleUrlImport_begin bad_url_state =
     Some ((handleReset bad_url_state)\<lparr> isLoadingUrl := True \<rparr>, lit ''http://bad'') \<and>
   productUrl ((handleReset bad_url_state)\<lparr> isLoadingUrl := True \<rparr>) = [] \<and>
   productUrl (handleUrlImport (urlToDataUrl unreachable) bad_url_state) = []"
proof -
  have u: "productUrl bad_url_state = lit ''http://bad''"
    by (simp add: bad_url_state_def)
  have n: "lit ''http://bad'' \<noteq> []"
    by (simp add: lit_def)
  from url_import_resets_all [OF u n, of "urlToDataUrl unreachable"]
  show ?thesis by simp
qed

section \<open>When the automatic description starts\<close>

lemma auto_analyze_on_new_image:
  assumes "\<not> truthy (productImage prev)" and "productImage cur = Some img" and "img \<noteq> []"
    and "\<not> truthy (finalImageURI cur)"
  shows "auto_analyze prev cur = Some (cur\<lparr> isGeneratingPrompt := True, error := None \<rparr>, img)"
  using assms
  by (auto simp add: auto_analyze_def analyze_deps_changed_def handleAnalyzeImage_begin_def
      truthy_def)

lemma auto_analyze_quiet:
  assumes "productImage cur = productImage prev" and "finalImageURI cur = finalImageURI prev"
  shows "auto_analyze prev cur = None"
  using assms by (simp add: auto_analyze_def analyze_deps_changed_def)

lemma auto_analyze_final_present:
  assumes "truthy (finalImageURI cur)"
  shows "auto_analyze prev cur = None"
  using assms by (simp add: auto_analyze_def)

lemmas run_defs =
  step_def loading_effect_def analyze_effect_def auto_analyze_def analyze_deps_changed_def
  settle_def handleImageUpload_def reader_onloadend_def handleReset_def
  handleAnalyzeImage_begin_def handleAnalyzeImage_end_def
  handleGenerate_begin_def handleGenerate_end_def
  handleUrlImport_begin_def handleUrlImport_end_def truthy_def

lemma png_image_nonempty: "png_image \<noteq> []"
  by (simp add: png_image_def lit_def)

lemma story_image_nonempty: "story_image \<noteq> []"
  by (simp add: story_image_def lit_def)

lemma praia_nonempty: "lit ''praia'' \<noteq> []"
  by (simp add: lit_def)

lemma run_to_composed:
  "run [FileChosen, FileLoaded (Some png_image), AnalyzeSettled (Inr (lit ''praia'')),
        GenerateClick, GenerateSettled (Inr story_image)] initial_config =
     \<lparr> state = composed_state, pending = [], ticker = None \<rparr>"
  using png_image_nonempty story_image_nonempty praia_nonempty
  by (simp add: run_defs initial_config_def initial_state_def composed_state_def)

text \<open>
  C1 says that the description starts by itself when a product image arrives while there
  is no final image, and at no other change of the state. The first half is
  \<open>auto_analyze_on_new_image\<close>. The second half fails at a state with a product
  image, a prompt and a final image, reached by choosing a file, its automatic
  description and a composition: the button of \<open>handleGenerate\<close> is enabled; the
  handler clears the final image before its call; the product image is the same as
  before; and the effect, run after that render, starts \<open>handleAnalyzeImage\<close>, so that
  a composition and a description are pending together.
\<close>

theorem recompose_retriggers_describe:
  "state
     (run [FileChosen, FileLoaded (Some png_image), AnalyzeSettled (Inr (lit ''praia'')),
           GenerateClick, GenerateSettled (Inr story_image)] initial_config) =
     composed_state \<and>
   generate_button_enabled composed_state \<and>
   handleGenerate_begin composed_state =
     Some (composed_state\<lparr> isLoading := True, error := None, finalImageURI := None \<rparr>,
           png_image, lit ''praia'') \<and>
   productImage (composed_state\<lparr> isLoading := True, error := None, finalImageURI := None \<rparr>) =
     productImage composed_state \<and>
   auto_analyze composed_state
     (composed_state\<lparr> isLoading := True, error := None, finalImageURI := None \<rparr>) =
     Some (composed_state\<lparr> isLoading := True, error := None, finalImageURI := None,
                           isGeneratingPrompt := True \<rparr>, png_image) \<and>
   run [FileChosen, FileLoaded (Some png_image), AnalyzeSettled (Inr (lit ''praia'')),
        GenerateClick, GenerateSettled (Inr story_image), GenerateClick] initial_config =
     \<lparr> state = composed_state\<lparr> isLoading := True, error := None, finalImageURI := None,
                                 isGeneratingPrompt := True \<rparr>,
       pending = [Compose, Describe], ticker = Some 0 \<rparr>"
proof -
  note i = png_image_nonempty and p = praia_nonempty
  have a: "state
     (run [FileChosen, FileLoaded (Some png_image), AnalyzeSettled (Inr (lit ''praia'')),
           GenerateClick, GenerateSettled (Inr story_image)] initial_config) =
     composed_state"
    by (simp only: run_to_composed) simp
  have b: "generate_button_enabled composed_state"
    using i p by (simp add: generate_button_enabled_def composed_state_def initial_state_def
        truthy_def)
  have c: "handleGenerate_begin composed_state =
     Some (composed_state\<lparr> isLoading := True, error := None, finalImageURI := None \<rparr>,
           png_image, lit ''praia'')"
    using i p by (simp add: handleGenerate_begin_def composed_state_def truthy_def)
  have d: "productImage (composed_state\<lparr> isLoading := True, error := None, finalImageURI := None \<rparr>) =
     productImage composed_state"
    by simp
  have e: "auto_analyze composed_state
     (composed_state\<lparr> isLoading := True, error := None, finalImageURI := None \<rparr>) =
     Some (composed_state\<lparr> isLoading := True, error := None, finalImageURI := None,
                           isGeneratingPrompt := True \<rparr>, png_image)"
    using i by (simp add: auto_analyze_def analyze_deps_changed_def handleAnalyzeImage_begin_def
        composed_state_def truthy_def)
  have f: "run [FileChosen, FileLoaded (Some png_image), AnalyzeSettled (Inr (lit ''praia'')),
        GenerateClick, GenerateSettled (Inr story_image), GenerateClick] initial_config =
     \<lparr> state = composed_state\<lparr> isLoading := True, error := None, finalImageURI := None,
                                 isGeneratingPrompt := True \<rparr>,
       pending = [Compose, Describe], ticker = Some 0 \<rparr>"
    using i p story_image_nonempty
    by (simp add: run_defs initial_config_def initial_state_def composed_state_def)
  show ?thesis by (intro conjI) (rule a b c d e f)+
qed

section \<open>Error and final image\<close>






text \<open>
  The events that \<open>clean\<close> excludes are those that leave both present: a pending call
  that fails beside a final image, and a pending composition that delivers an image
  beside an error.
\<close>

lemma failure_beside_final:
  assumes "finalImageURI (state c) \<noteq> None"
  shows "Describe \<in> set (pending c) \<Longrightarrow> \<not> exclusive (state (step (AnalyzeSettled (Inl m)) c))"
    and "Normalize \<in> set (pending c) \<Longrightarrow> \<not> exclusive (state (step (UrlSettled (Inl m)) c))"
    and "Compose \<in> set (pending c) \<Longrightarrow> \<not> exclusive (state (step (GenerateSettled (Inl m)) c))"
  using assms by (auto simp add: run_defs exclusive_def)

lemma success_beside_error:
  assumes "error (state c) \<noteq> None" and "Compose \<in> set (pending c)" and "f \<noteq> []"
  shows "\<not> exclusive (state (step (GenerateSettled (Inr f)) c))"
  using assms by (auto simp add: run_defs exclusive_def)


text \<open>
  The same end without any description started beside a final image: a second
  composition clears the final image, the effect starts a description, the composition
  delivers its image and the description fails.
\<close>

lemma recompose_describe_failure_beside_final:
  "\<not> exclusive
     (state
        (run [FileChosen, FileLoaded (Some png_image), AnalyzeSettled (Inr (lit ''praia'')),
              GenerateClick, GenerateSettled (Inr story_image),
              GenerateClick, GenerateSettled (Inr story_image),
              AnalyzeSettled (Inl (lit ''quota''))] initial_config))"
  using png_image_nonempty story_image_nonempty praia_nonempty
  by (simp add: run_defs exclusive_def initial_config_def initial_state_def)



end
